theory Spec2Isabelle
  imports Main "HOL-Library.Sublist"
begin

section \<open>The movie-review application (app.py)\<close>

text \<open>
  A shallow embedding of the Flask application in \<^verbatim>\<open>app.py\<close>. Every view function
  becomes a function from the request and the application state to a response and the
  new state. An exception leaving a view function is the response \<open>Raised e\<close>.
  Python strings are modelled as \<^typ>\<open>string\<close>; one \<^typ>\<open>char\<close> stands for one
  code point. Integer keys are natural numbers.
\<close>

subsection \<open>Exceptions, requests and responses\<close>

datatype error =
    BadRequestKeyError string  \<comment> \<open>\<^verbatim>\<open>request.form[k]\<close> with \<open>k\<close> absent\<close>
  | ValueError                 \<comment> \<open>raised by the hashing library\<close>
  | DataError                  \<comment> \<open>a value too long for its column\<close>
  | IntegrityError             \<comment> \<open>a primary-key, unique or foreign-key violation\<close>
  | ConnectionError            \<comment> \<open>\<^verbatim>\<open>requests.get\<close> did not obtain a response\<close>
  | JSONDecodeError            \<comment> \<open>\<^verbatim>\<open>response.json()\<close> on a body that is not JSON\<close>

datatype http_method = GET | HEAD | POST

record request =
  request_method :: http_method
  form :: "string \<rightharpoonup> string"

datatype json_value =
    JNull
  | JBool bool
  | JNum string
  | JStr string
  | JArr "json_value list"
  | JObj "(string \<times> json_value) list"

subsection \<open>Models\<close>

text \<open>
  The class \<^verbatim>\<open>User\<close> (table \<^verbatim>\<open>users\<close>): the column \<^verbatim>\<open>id\<close> is the field \<open>uid\<close>.
  The class \<^verbatim>\<open>Review\<close> (table \<^verbatim>\<open>reviews\<close>): the column \<^verbatim>\<open>id\<close> is the field \<open>rid\<close>.
\<close>

record user =
  uid :: nat
  username :: string
  password :: string

record review =
  rid :: nat
  movie_title :: string
  review_text :: string
  user_id :: nat

text \<open>
  What \<^verbatim>\<open>render_template\<close> receives as keyword arguments, and the three ways a view
  function ends: \<^verbatim>\<open>redirect(url_for(endpoint))\<close>, \<^verbatim>\<open>render_template(name, ...)\<close>, or an
  exception that nothing in the view catches.
\<close>

datatype ctx_value =
    PyNone
  | Str string
  | Movie json_value
  | Reviews "review list"

datatype response =
    Redirect string
  | Rendered string "(string \<times> ctx_value) list"
  | Raised error

subsection \<open>Application state\<close>

text \<open>
  The two tables in insertion order, the two sequences PostgreSQL keeps for the serial
  primary keys, the user id held in the client's session cookie (\<^verbatim>\<open>session['_user_id']\<close>
  of Flask-Login), and the URLs handed to \<^verbatim>\<open>requests.get\<close> so far.
\<close>

record app_state =
  users :: "user list"
  reviews :: "review list"
  users_id_seq :: nat
  reviews_id_seq :: nat
  session :: "nat option"
  outbound :: "string list"

definition initial_state :: app_state where
  "initial_state =
     \<lparr>users = [], reviews = [], users_id_seq = 1, reviews_id_seq = 1,
      session = None, outbound = []\<rparr>"

subsection \<open>Configuration read at import time\<close>

text \<open>\<^verbatim>\<open>os.getenv(key, default)\<close>: the value of the variable when it is set, else the default.\<close>

definition getenv :: "(string \<rightharpoonup> string) \<Rightarrow> string \<Rightarrow> string \<Rightarrow> string" where
  "getenv environ key fallback = (case environ key of None \<Rightarrow> fallback | Some v \<Rightarrow> v)"

record config =
  SQLALCHEMY_DATABASE_URI :: string
  SQLALCHEMY_TRACK_MODIFICATIONS :: bool
  SECRET_KEY :: string
  OMDB_API_KEY :: string

text \<open>
  Lines 23 to 37 of the module run once, when the module is imported; the view functions
  below receive the resulting \<^typ>\<open>config\<close> and never the environment.
\<close>

definition load_config :: "(string \<rightharpoonup> string) \<Rightarrow> config" where
  "load_config environ =
     \<lparr>SQLALCHEMY_DATABASE_URI = ''postgresql://localhost/movie_reviews'',
      SQLALCHEMY_TRACK_MODIFICATIONS = False,
      SECRET_KEY = getenv environ ''SECRET_KEY'' ''fallback-secret-key'',
      OMDB_API_KEY = getenv environ ''OMDB_API_KEY'' ''fallback-api-key''\<rparr>"

subsection \<open>Library calls\<close>

text \<open>\<^verbatim>\<open>request.form[k]\<close> raises when the key is absent; \<^verbatim>\<open>request.form.get(k)\<close> returns \<^verbatim>\<open>None\<close>.\<close>

definition form_getitem :: "(string \<rightharpoonup> string) \<Rightarrow> string \<Rightarrow> error + string" where
  "form_getitem f k = (case f k of None \<Rightarrow> Inl (BadRequestKeyError k) | Some v \<Rightarrow> Inr v)"

definition form_get :: "(string \<rightharpoonup> string) \<Rightarrow> string \<Rightarrow> string option" where
  "form_get f k = f k"

text \<open>What an f-string writes for a value that is a string or \<^verbatim>\<open>None\<close>.\<close>

definition format_str :: "string option \<Rightarrow> string" where
  "format_str v = (case v of None \<Rightarrow> ''None'' | Some s \<Rightarrow> s)"

text \<open>
  The password hashing library (Flask-Bcrypt) is not part of the repository; the view
  functions take it as a parameter. \<open>generate_password_hash\<close> receives, besides the
  password, the salt bytes the library draws during that call; both calls may raise.
\<close>

record bcrypt =
  generate_password_hash :: "string \<Rightarrow> string \<Rightarrow> error + string"
  check_password_hash :: "string \<Rightarrow> string \<Rightarrow> error + bool"

text \<open>
  The answer of the metadata provider as \<^verbatim>\<open>requests\<close> presents it: the status code and
  what \<^verbatim>\<open>response.json()\<close> gives (the parsed body, or the exception it raises).
\<close>

record http_response =
  status_code :: int
  json :: "error + json_value"

subsection \<open>PostgreSQL values\<close>

text \<open>
  A string handed to PostgreSQL as a statement parameter: a text value cannot hold the
  character U+0000, and the statement is refused before it runs.
\<close>

definition bind_text :: "string \<Rightarrow> error + string" where
  "bind_text s = (if CHR 0x00 \<in> set s then Inl DataError else Inr s)"

text \<open>
  Storing a string in a \<^verbatim>\<open>String(n)\<close> column (\<^verbatim>\<open>varchar(n)\<close>): a longer value is refused,
  unless the characters past the \<open>n\<close>-th are all spaces; then the value is cut to \<open>n\<close>
  characters and stored.
\<close>

definition varchar :: "nat \<Rightarrow> string \<Rightarrow> error + string" where
  "varchar n s =
     (if length s \<le> n then Inr s
      else if list_all (\<lambda>c. c = CHR '' '') (drop n s) then Inr (take n s)
      else Inl DataError)"

subsection \<open>Queries\<close>

text \<open>\<^verbatim>\<open>Query.first()\<close>: the first row of the result, or \<^verbatim>\<open>None\<close>.\<close>

definition first :: "'a list \<Rightarrow> 'a option" where
  "first rows = (case rows of [] \<Rightarrow> None | r # _ \<Rightarrow> Some r)"

definition filter_by_username :: "string \<Rightarrow> user list \<Rightarrow> user list" where
  "filter_by_username name rows = filter (\<lambda>u. username u = name) rows"

definition filter_by_movie_title :: "string \<Rightarrow> review list \<Rightarrow> review list" where
  "filter_by_movie_title title rows = filter (\<lambda>r. movie_title r = title) rows"

text \<open>
  \<^verbatim>\<open>User.query.filter_by(username=username).first()\<close>: the comparison is on the string as
  submitted (trailing spaces count, no length limit applies to the parameter).
\<close>

definition query_user_by_username :: "string \<Rightarrow> app_state \<Rightarrow> error + user option" where
  "query_user_by_username name st =
     (case bind_text name of
        Inl e \<Rightarrow> Inl e
      | Inr n \<Rightarrow> Inr (first (filter_by_username n (users st))))"

text \<open>\<^verbatim>\<open>Review.query.filter_by(movie_title=title).all()\<close>.\<close>

definition query_reviews_by_title :: "string \<Rightarrow> app_state \<Rightarrow> error + review list" where
  "query_reviews_by_title title st =
     (case bind_text title of
        Inl e \<Rightarrow> Inl e
      | Inr t \<Rightarrow> Inr (filter_by_movie_title t (reviews st)))"

text \<open>\<^verbatim>\<open>User.query.get(pk)\<close>: the row with that primary key, or \<^verbatim>\<open>None\<close>.\<close>

definition query_get :: "nat \<Rightarrow> user list \<Rightarrow> user option" where
  "query_get pk rows = find (\<lambda>u. uid u = pk) rows"

subsection \<open>Inserts\<close>

text \<open>
  \<^verbatim>\<open>db.session.add(User(...)); db.session.commit()\<close> against the declared schema:
  \<^verbatim>\<open>username\<close> is \<^verbatim>\<open>String(80), unique\<close>, \<^verbatim>\<open>password\<close> is \<^verbatim>\<open>String(200)\<close>, \<^verbatim>\<open>id\<close> is the
  primary key drawn from the sequence. The result is the stored row or the exception,
  and the state after the commit or the rollback. A value that is refused (U+0000, too
  long) fails the statement before a row is built; a primary-key or unique violation is
  found when the row is written, after its id was drawn, and a sequence does not give
  a drawn value back.
\<close>

definition insert_user ::
  "string \<Rightarrow> string \<Rightarrow> app_state \<Rightarrow> (error + user) \<times> app_state" where
  "insert_user name pw st =
     (case bind_text name of Inl e \<Rightarrow> (Inl e, st) | Inr _ \<Rightarrow>
      case bind_text pw of Inl e \<Rightarrow> (Inl e, st) | Inr _ \<Rightarrow>
      case varchar 80 name of Inl e \<Rightarrow> (Inl e, st) | Inr stored_name \<Rightarrow>
      case varchar 200 pw of Inl e \<Rightarrow> (Inl e, st) | Inr stored_pw \<Rightarrow>
        (let new_user = \<lparr>uid = users_id_seq st, username = stored_name, password = stored_pw\<rparr>;
             st' = st\<lparr>users_id_seq := users_id_seq st + 1\<rparr>
         in if list_ex (\<lambda>u. uid u = uid new_user \<or> username u = stored_name) (users st)
            then (Inl IntegrityError, st')
            else (Inr new_user, st'\<lparr>users := users st @ [new_user]\<rparr>)))"

text \<open>
  \<^verbatim>\<open>db.session.add(Review(...)); db.session.commit()\<close>: \<^verbatim>\<open>movie_title\<close> is \<^verbatim>\<open>String(255)\<close>,
  \<^verbatim>\<open>review_text\<close> is unbounded \<^verbatim>\<open>Text\<close>, \<^verbatim>\<open>user_id\<close> is a foreign key to \<^verbatim>\<open>users.id\<close>.
\<close>

definition insert_review ::
  "string \<Rightarrow> string \<Rightarrow> nat \<Rightarrow> app_state \<Rightarrow> (error + review) \<times> app_state" where
  "insert_review title text author st =
     (case bind_text title of Inl e \<Rightarrow> (Inl e, st) | Inr _ \<Rightarrow>
      case bind_text text of Inl e \<Rightarrow> (Inl e, st) | Inr _ \<Rightarrow>
      case varchar 255 title of Inl e \<Rightarrow> (Inl e, st) | Inr stored_title \<Rightarrow>
        (let new_review = \<lparr>rid = reviews_id_seq st, movie_title = stored_title,
                           review_text = text, user_id = author\<rparr>;
             st' = st\<lparr>reviews_id_seq := reviews_id_seq st + 1\<rparr>
         in if list_ex (\<lambda>r. rid r = rid new_review) (reviews st)
                 \<or> \<not> list_ex (\<lambda>u. uid u = author) (users st)
            then (Inl IntegrityError, st')
            else (Inr new_review, st'\<lparr>reviews := reviews st @ [new_review]\<rparr>)))"

subsection \<open>Flask-Login\<close>

text \<open>
  \<^verbatim>\<open>load_user\<close> is the \<^verbatim>\<open>user_loader\<close> callback; \<open>current_user\<close> is the user it loads for
  the id in the session, if any. \<^verbatim>\<open>login_user\<close> stores the id of the user in the session
  (\<^verbatim>\<open>UserMixin.is_active\<close> is always true), \<^verbatim>\<open>logout_user\<close> removes it.
\<close>

definition load_user :: "nat \<Rightarrow> app_state \<Rightarrow> user option" where
  "load_user pk st = query_get pk (users st)"

definition current_user :: "app_state \<Rightarrow> user option" where
  "current_user st = (case session st of None \<Rightarrow> None | Some pk \<Rightarrow> load_user pk st)"

definition login_user :: "user \<Rightarrow> app_state \<Rightarrow> app_state" where
  "login_user u st = st\<lparr>session := Some (uid u)\<rparr>"

definition logout_user :: "app_state \<Rightarrow> app_state" where
  "logout_user st = st\<lparr>session := None\<rparr>"

text \<open>
  \<^verbatim>\<open>@login_required\<close> with \<^verbatim>\<open>login_manager.login_view = 'login'\<close>: without an authenticated
  user the wrapped view is not called and the answer is a redirect to the login view
  (the \<^verbatim>\<open>next\<close> query parameter of that redirect is not modelled).
\<close>

definition login_required ::
  "(user \<Rightarrow> app_state \<Rightarrow> response \<times> app_state) \<Rightarrow> app_state \<Rightarrow> response \<times> app_state" where
  "login_required view st =
     (case current_user st of
        None \<Rightarrow> (Redirect ''login'', st)
      | Some u \<Rightarrow> view u st)"

subsection \<open>Routes\<close>

definition home :: "app_state \<Rightarrow> response \<times> app_state" where
  "home st = (Rendered ''home.html'' [], st)"

text \<open>
  \<^verbatim>\<open>register\<close>. Between the \<^verbatim>\<open>SELECT\<close> of line 105 and the \<^verbatim>\<open>INSERT\<close> of line 116 other
  requests may commit; \<open>concurrent\<close> is what they did to the state in between (the
  identity when the request runs alone).
\<close>

definition register ::
  "bcrypt \<Rightarrow> string \<Rightarrow> (app_state \<Rightarrow> app_state) \<Rightarrow> request \<Rightarrow> app_state
     \<Rightarrow> response \<times> app_state" where
  "register bc salt concurrent req st =
     (if request_method req = POST then
        (case form_getitem (form req) ''username'' of
           Inl e \<Rightarrow> (Raised e, st)
         | Inr name \<Rightarrow>
        (case form_getitem (form req) ''password'' of
           Inl e \<Rightarrow> (Raised e, st)
         | Inr pw \<Rightarrow>
        (case query_user_by_username name st of
           Inl e \<Rightarrow> (Raised e, st)
         | Inr (Some existing_user) \<Rightarrow> (Redirect ''register'', st)
         | Inr None \<Rightarrow>
        (case generate_password_hash bc salt pw of
           Inl e \<Rightarrow> (Raised e, st)
         | Inr hashed_pw \<Rightarrow>
        (case insert_user name hashed_pw (concurrent st) of
           (Inl e, st') \<Rightarrow> (Raised e, st')
         | (Inr new_user, st') \<Rightarrow> (Redirect ''home'', login_user new_user st'))))))
      else (Rendered ''register.html'' [], st))"

definition login :: "bcrypt \<Rightarrow> request \<Rightarrow> app_state \<Rightarrow> response \<times> app_state" where
  "login bc req st =
     (if request_method req = POST then
        (case form_getitem (form req) ''username'' of
           Inl e \<Rightarrow> (Raised e, st)
         | Inr name \<Rightarrow>
        (case form_getitem (form req) ''password'' of
           Inl e \<Rightarrow> (Raised e, st)
         | Inr pw \<Rightarrow>
        (case query_user_by_username name st of
           Inl e \<Rightarrow> (Raised e, st)
         | Inr None \<Rightarrow> (Redirect ''login'', st)
         | Inr (Some u) \<Rightarrow>
        (case check_password_hash bc (password u) pw of
           Inl e \<Rightarrow> (Raised e, st)
         | Inr ok \<Rightarrow>
             if ok then (Redirect ''home'', login_user u st)
             else (Redirect ''login'', st)))))
      else (Rendered ''login.html'' [], st))"

definition logout :: "app_state \<Rightarrow> response \<times> app_state" where
  "logout = login_required (\<lambda>u st. (Redirect ''home'', logout_user st))"

text \<open>
  \<^verbatim>\<open>search\<close>. \<open>requests_get\<close> is the network: the response to a GET of the URL, or the
  exception \<^verbatim>\<open>requests.get\<close> raises.
\<close>

definition search_url :: "config \<Rightarrow> string option \<Rightarrow> string" where
  "search_url cfg title =
     ''http://www.omdbapi.com/?apikey='' @ OMDB_API_KEY cfg @ ''&t='' @ format_str title"

definition search ::
  "config \<Rightarrow> (string \<Rightarrow> error + http_response) \<Rightarrow> request \<Rightarrow> app_state
     \<Rightarrow> response \<times> app_state" where
  "search cfg requests_get req st =
     (if request_method req = POST then
        (let title = form_get (form req) ''title'';
             url = search_url cfg title;
             st' = st\<lparr>outbound := outbound st @ [url]\<rparr> in
         case requests_get url of
           Inl e \<Rightarrow> (Raised e, st')
         | Inr resp \<Rightarrow>
             if status_code resp = 200 then
               (case json resp of
                  Inl e \<Rightarrow> (Raised e, st')
                | Inr movie_data \<Rightarrow> (Rendered ''search.html'' [(''movie'', Movie movie_data)], st'))
             else (Rendered ''search.html'' [(''movie'', PyNone)], st'))
      else (Rendered ''search.html'' [(''movie'', PyNone)], st))"

definition review_view :: "string \<Rightarrow> request \<Rightarrow> user \<Rightarrow> app_state \<Rightarrow> response \<times> app_state" where
  "review_view title req cur st =
     (if request_method req = POST then
        (case form_getitem (form req) ''review_text'' of
           Inl e \<Rightarrow> (Raised e, st)
         | Inr text \<Rightarrow>
        (case insert_review title text (uid cur) st of
           (Inl e, st') \<Rightarrow> (Raised e, st')
         | (Inr new_review, st') \<Rightarrow> (Redirect ''home'', st')))
      else (Rendered ''review.html'' [(''title'', Str title)], st))"

definition review :: "string \<Rightarrow> request \<Rightarrow> app_state \<Rightarrow> response \<times> app_state" where
  "review title req = login_required (review_view title req)"

definition view_reviews :: "string \<Rightarrow> app_state \<Rightarrow> response \<times> app_state" where
  "view_reviews title st =
     (case query_reviews_by_title title st of
        Inl e \<Rightarrow> (Raised e, st)
      | Inr found \<Rightarrow>
          (Rendered ''reviews.html'' [(''title'', Str title), (''reviews'', Reviews found)], st))"

subsection \<open>Requests that carry credentials\<close>

text \<open>
  A POST whose form holds the two fields both \<^verbatim>\<open>register\<close> and \<^verbatim>\<open>login\<close> read. Any
  further field of the form is ignored by the two views.
\<close>

definition posts_credentials :: "request \<Rightarrow> string \<Rightarrow> string \<Rightarrow> bool" where
  "posts_credentials req name pw \<longleftrightarrow>
     request_method req = POST \<and> form req ''username'' = Some name
       \<and> form req ''password'' = Some pw"

subsection \<open>Histories of requests\<close>

text \<open>
  A request to one of the seven routes of lines 85 to 196, as Flask dispatches it to its
  view function: \<^verbatim>\<open>/register\<close> (with the salt the library draws), \<^verbatim>\<open>/login\<close>, \<^verbatim>\<open>/search\<close> and
  \<^verbatim>\<open>/review/<title>\<close> with the request's method and form, the other three as the GET they
  accept. \<open>handle\<close> answers one request that runs alone; \<open>run\<close> is the state after a list of
  requests handled one after the other.
\<close>

datatype call =
    Home
  | Register string request
  | Login request
  | Logout
  | Search request
  | Review string request
  | ViewReviews string

fun handle ::
  "bcrypt \<Rightarrow> config \<Rightarrow> (string \<Rightarrow> error + http_response) \<Rightarrow> call \<Rightarrow> app_state
     \<Rightarrow> response \<times> app_state" where
  "handle bc cfg net Home st = home st"
| "handle bc cfg net (Register salt req) st = register bc salt id req st"
| "handle bc cfg net (Login req) st = login bc req st"
| "handle bc cfg net Logout st = logout st"
| "handle bc cfg net (Search req) st = search cfg net req st"
| "handle bc cfg net (Review title req) st = review title req st"
| "handle bc cfg net (ViewReviews title) st = view_reviews title st"

fun run ::
  "bcrypt \<Rightarrow> config \<Rightarrow> (string \<Rightarrow> error + http_response) \<Rightarrow> call list \<Rightarrow> app_state
     \<Rightarrow> app_state" where
  "run bc cfg net [] st = st"
| "run bc cfg net (c # cs) st = run bc cfg net cs (snd (handle bc cfg net c st))"


subsection \<open>What is expected of the hashing library\<close>

text \<open>
  Modelled from the spec: the verify half of the hash/verify pair of Flask-Bcrypt, whose
  code is not in the repository. The spec's words: verifying the correct password against
  the stored hash always succeeds.
\<close>

definition verifies_own_password :: "bcrypt \<Rightarrow> bool" where
  "verifies_own_password bc \<longleftrightarrow>
     (\<forall>salt pw h. generate_password_hash bc salt pw = Inr h
        \<longrightarrow> check_password_hash bc h pw = Inr True)"

text \<open>
  Modelled from the spec: the hash half of the hash/verify pair of Flask-Bcrypt, whose code
  is not in the repository. The spec's words: password hashes are never equal to the
  plaintext password.
\<close>

definition hash_differs_from_plaintext :: "bcrypt \<Rightarrow> bool" where
  "hash_differs_from_plaintext bc \<longleftrightarrow>
     (\<forall>salt pw h. generate_password_hash bc salt pw = Inr h \<longrightarrow> h \<noteq> pw)"

subsection \<open>Concrete inputs\<close>

text \<open>
  The inputs at which the statements below are evaluated. \<open>demo_bcrypt\<close> is an executable
  instance of the library parameter; it is not bcrypt. It writes the salt, padded or cut
  to 22 characters, in front of the password. Like Flask-Bcrypt it refuses to hash the
  empty password, and like bcrypt 5 it refuses every password of more than 72 characters.
\<close>

definition demo_bcrypt :: bcrypt where
  "demo_bcrypt =
     \<lparr>generate_password_hash =
        (\<lambda>salt pw. if pw = [] \<or> 72 < length pw then Inl ValueError
                    else Inr (take 22 (salt @ replicate 22 CHR ''.'') @ pw)),
      check_password_hash =
        (\<lambda>h pw. if 72 < length pw then Inl ValueError else Inr (drop 22 h = pw))\<rparr>"

definition post :: "(string \<times> string) list \<Rightarrow> request" where
  "post kvs = \<lparr>request_method = POST, form = map_of kvs\<rparr>"

definition credentials :: "string \<Rightarrow> string \<Rightarrow> request" where
  "credentials name pw = post [(''username'', name), (''password'', pw)]"

text \<open>A metadata provider that answers every URL with the same status and body.\<close>

definition provider :: "int \<Rightarrow> error + json_value \<Rightarrow> string \<Rightarrow> error + http_response" where
  "provider code body url = Inr \<lparr>status_code = code, json = body\<rparr>"

text \<open>
  What the request of another client does to the state: it runs with that client's
  session cookie and leaves this client's cookie alone.
\<close>

definition other_client ::
  "nat option \<Rightarrow> (app_state \<Rightarrow> response \<times> app_state) \<Rightarrow> app_state \<Rightarrow> app_state" where
  "other_client their_session handler st =
     (snd (handler (st\<lparr>session := their_session\<rparr>)))\<lparr>session := session st\<rparr>"

text \<open>Another client registers \<^verbatim>\<open>alice\<close> and commits first.\<close>

definition bob_commits_first :: "app_state \<Rightarrow> app_state" where
  "bob_commits_first =
     other_client None (register demo_bcrypt ''s2'' id (credentials ''alice'' ''pw2''))"

text \<open>The state after \<^verbatim>\<open>alice\<close> registered with \<^verbatim>\<open>pw1\<close>, and after she reviewed \<^verbatim>\<open>Dune\<close>.\<close>

definition alice_registered :: app_state where
  "alice_registered =
     snd (register demo_bcrypt ''s1'' id (credentials ''alice'' ''pw1'') initial_state)"

definition dune_reviewed :: app_state where
  "dune_reviewed = snd (review ''Dune'' (post [(''review_text'', ''Great'')]) alice_registered)"

text \<open>
  A username of 81 characters, eighty times \<^verbatim>\<open>a\<close> and one space, and the state after a
  registration with it. A title of 256 characters, 255 times \<^verbatim>\<open>T\<close> and one space, and the
  state after \<^verbatim>\<open>alice\<close> posted a review under it.
\<close>

definition padded_name :: string where
  "padded_name = replicate 80 CHR ''a'' @ '' ''"

definition padded_registered :: app_state where
  "padded_registered =
     snd (register demo_bcrypt ''s1'' id (credentials padded_name ''pw1'') initial_state)"



section \<open>Properties\<close>

subsection \<open>PostgreSQL values and queries\<close>

lemma bind_text_Inr: "bind_text s = Inr r \<longleftrightarrow> CHR 0x00 \<notin> set s \<and> r = s"
  by (auto simp: bind_text_def)

lemma bind_text_ok: "CHR 0x00 \<notin> set s \<Longrightarrow> bind_text s = Inr s"
  by (simp add: bind_text_def)

lemma varchar_Inr: "varchar n s = Inr r \<Longrightarrow> r = take n s"
  by (auto simp: varchar_def split: if_splits)

lemma varchar_fits: "length s \<le> n \<Longrightarrow> varchar n s = Inr s"
  by (simp add: varchar_def)

lemma first_filter_None:
  "first (filter_by_username name rows) = None \<longleftrightarrow> (\<forall>u \<in> set rows. username u \<noteq> name)"
  by (induction rows) (auto simp: first_def filter_by_username_def)

lemma first_filter_Some:
  "first (filter_by_username name rows) = Some u \<Longrightarrow> u \<in> set rows \<and> username u = name"
  by (induction rows) (auto simp: first_def filter_by_username_def split: if_splits)

lemma query_user_None:
  "query_user_by_username name st = Inr None \<longleftrightarrow>
     CHR 0x00 \<notin> set name \<and> (\<forall>u \<in> set (users st). username u \<noteq> name)"
  by (auto simp: query_user_by_username_def bind_text_def first_filter_None)

lemma query_user_Some:
  assumes "query_user_by_username name st = Inr (Some u)"
  shows "u \<in> set (users st)" and "username u = name" and "CHR 0x00 \<notin> set name"
  using assms
  by (auto simp: query_user_by_username_def bind_text_def dest: first_filter_Some
      split: if_splits)

lemma query_user_found:
  assumes "CHR 0x00 \<notin> set name" and "\<exists>u \<in> set (users st). username u = name"
  shows "\<exists>u. query_user_by_username name st = Inr (Some u)"
proof -
  from assms(2) have "first (filter_by_username name (users st)) \<noteq> None"
    by (simp add: first_filter_None)
  then show ?thesis
    using assms(1) by (auto simp: query_user_by_username_def bind_text_def)
qed

lemma find_append_None:
  "find P xs = None \<Longrightarrow> find P (xs @ ys) = find P ys"
  by (induction xs) (auto split: if_splits)

subsection \<open>Inserts\<close>

lemma insert_user_Inr:
  assumes "insert_user name h s = (Inr nu, s')"
  shows "varchar 80 name = Inr (username nu)"
    and "varchar 200 h = Inr (password nu)"
    and "uid nu = users_id_seq s"
    and "s' = s\<lparr>users_id_seq := users_id_seq s + 1, users := users s @ [nu]\<rparr>"
    and "\<forall>u \<in> set (users s). uid u \<noteq> uid nu \<and> username u \<noteq> username nu"
  using assms
  by (auto simp: insert_user_def Let_def list_ex_iff split: sum.splits if_splits)

lemma insert_user_Inl:
  assumes "insert_user name h s = (Inl e, s')"
  shows "users s' = users s" and "session s' = session s" and "reviews s' = reviews s"
  using assms
  by (auto simp: insert_user_def Let_def split: sum.splits if_splits)

text \<open>The unique constraint: when the name as it would be stored is taken, nothing is inserted.\<close>

lemma insert_user_taken:
  assumes "varchar 80 name = Inr stored" and "\<exists>u \<in> set (users s). username u = stored"
  shows "users (snd (insert_user name h s)) = users s"
    and "\<exists>e. fst (insert_user name h s) = Inl e"
  using assms
  by (auto simp: insert_user_def Let_def list_ex_iff split: sum.splits)

lemma insert_user_distinct:
  assumes "insert_user name h s = (Inr nu, s')" and "distinct (map username (users s))"
  shows "distinct (map username (users s'))"
  using insert_user_Inr(4,5) [OF assms(1)] assms(2) by auto

lemma current_user_after_insert:
  assumes "insert_user name h s = (Inr nu, s')"
  shows "current_user (login_user nu s') = Some nu"
proof -
  have "find (\<lambda>u. uid u = uid nu) (users s) = None"
    using insert_user_Inr(5) [OF assms] by (simp add: find_None_iff)
  then show ?thesis
    using insert_user_Inr(4) [OF assms]
    by (simp add: current_user_def load_user_def query_get_def login_user_def
        find_append_None)
qed

subsection \<open>The two views that read credentials\<close>

lemma register_post:
  assumes "posts_credentials req name pw"
  shows "register bc salt concurrent req st =
     (case query_user_by_username name st of
        Inl e \<Rightarrow> (Raised e, st)
      | Inr (Some existing_user) \<Rightarrow> (Redirect ''register'', st)
      | Inr None \<Rightarrow>
          (case generate_password_hash bc salt pw of
             Inl e \<Rightarrow> (Raised e, st)
           | Inr hashed_pw \<Rightarrow>
               (case insert_user name hashed_pw (concurrent st) of
                  (Inl e, st') \<Rightarrow> (Raised e, st')
                | (Inr new_user, st') \<Rightarrow> (Redirect ''home'', login_user new_user st'))))"
  using assms by (simp add: register_def posts_credentials_def form_getitem_def)

lemma login_post:
  assumes "posts_credentials req name pw"
  shows "login bc req st =
     (case query_user_by_username name st of
        Inl e \<Rightarrow> (Raised e, st)
      | Inr None \<Rightarrow> (Redirect ''login'', st)
      | Inr (Some u) \<Rightarrow>
          (case check_password_hash bc (password u) pw of
             Inl e \<Rightarrow> (Raised e, st)
           | Inr ok \<Rightarrow>
               if ok then (Redirect ''home'', login_user u st) else (Redirect ''login'', st)))"
  using assms by (simp add: login_def posts_credentials_def form_getitem_def)

text \<open>A registration that answers with the redirect home hashed the password and committed.\<close>

lemma register_success:
  assumes "posts_credentials req name pw"
    and "register bc salt concurrent req st = (Redirect ''home'', st1)"
  shows "\<exists>h nu s'. query_user_by_username name st = Inr None
           \<and> generate_password_hash bc salt pw = Inr h
           \<and> insert_user name h (concurrent st) = (Inr nu, s') \<and> st1 = login_user nu s'"
  using assms(2) unfolding register_post [OF assms(1)]
  by (auto split: option.splits sum.splits prod.splits)

subsection \<open>The view that writes reviews\<close>

lemma review_step:
  assumes "review title req st = (resp, st')"
  shows "users st' = users st" and "session st' = session st"
    and "resp \<noteq> Redirect ''home'' \<Longrightarrow> reviews st' = reviews st"
    and "resp = Redirect ''home'' \<Longrightarrow>
           \<exists>text u. form req ''review_text'' = Some text \<and> current_user st = Some u
             \<and> reviews st' = reviews st @
                  [\<lparr>rid = reviews_id_seq st, movie_title = take 255 title,
                    review_text = text, user_id = uid u\<rparr>]"
  using assms
  by (auto simp: review_def login_required_def review_view_def form_getitem_def
      insert_review_def Let_def dest: varchar_Inr
      split: option.splits sum.splits if_splits prod.splits)

lemma current_user_cong:
  "users st' = users st \<Longrightarrow> session st' = session st \<Longrightarrow> current_user st' = current_user st"
  by (simp add: current_user_def load_user_def split: option.splits)

subsection \<open>What the views leave alone\<close>


lemma insert_user_prefix: "prefix (users s) (users (snd (insert_user name h s)))"
  by (simp add: insert_user_def Let_def split: sum.splits)

lemma insert_review_users: "users (snd (insert_review title body author s)) = users s"
  by (simp add: insert_review_def Let_def split: sum.splits)


lemma register_alone_prefix: "prefix (users st) (users (snd (register bc salt id req st)))"
proof -
  have "prefix (users st) (users (snd (case insert_user name h st of
            (Inl e, st') \<Rightarrow> (Raised e, st')
          | (Inr new_user, st') \<Rightarrow> (Redirect ''home'', login_user new_user st'))))"
    for name h
    using insert_user_prefix [of st name h]
    by (cases "insert_user name h st") (auto simp: login_user_def split: sum.splits)
  then show ?thesis
    by (simp add: register_def split: sum.splits option.splits)
qed


lemma login_users: "users (snd (login bc req st)) = users st"
  by (simp add: login_def login_user_def split: sum.splits option.splits)

lemma logout_tables: "reviews (snd (logout st)) = reviews st" "users (snd (logout st)) = users st"
  by (simp_all add: logout_def login_required_def logout_user_def split: option.splits)

lemma search_tables:
  "reviews (snd (search cfg net req st)) = reviews st"
  "users (snd (search cfg net req st)) = users st"
  by (simp_all add: search_def Let_def split: sum.splits)

lemma view_reviews_state: "snd (view_reviews title st) = st"
  by (simp add: view_reviews_def split: sum.splits)

lemma review_users: "users (snd (review title req st)) = users st"
  using review_step(1) [of title req st "fst (review title req st)" "snd (review title req st)"]
  by simp


text \<open>No view removes or changes a row of the \<^verbatim>\<open>users\<close> table.\<close>

lemma handle_users_prefix: "prefix (users st) (users (snd (handle bc cfg net c st)))"
  by (cases c)
    (simp_all add: home_def register_alone_prefix login_users logout_tables search_tables
      view_reviews_state review_users)

lemma run_users_prefix: "prefix (users st) (users (run bc cfg net calls st))"
proof (induction calls arbitrary: st)
  case Nil
  then show ?case by simp
next
  case (Cons c cs)
  have "prefix (users st) (users (snd (handle bc cfg net c st)))"
    by (rule handle_users_prefix)
  also have "prefix \<dots> (users (run bc cfg net cs (snd (handle bc cfg net c st))))"
    by (rule Cons.IH)
  finally show ?case by simp
qed

subsection \<open>The concrete inputs, evaluated\<close>

lemma posts_credentials_credentials: "posts_credentials (credentials name pw) name pw"
  by (simp add: posts_credentials_def credentials_def post_def)

lemma demo_generate:
  "generate_password_hash demo_bcrypt salt pw = Inr h \<longleftrightarrow>
     pw \<noteq> [] \<and> length pw \<le> 72 \<and> h = take 22 (salt @ replicate 22 CHR ''.'') @ pw"
  by (auto simp: demo_bcrypt_def)

lemma demo_check:
  "check_password_hash demo_bcrypt h pw =
     (if 72 < length pw then Inl ValueError else Inr (drop 22 h = pw))"
  by (simp add: demo_bcrypt_def)

lemma demo_verifies: "verifies_own_password demo_bcrypt"
  by (simp add: verifies_own_password_def demo_generate demo_check)

lemma demo_differs: "hash_differs_from_plaintext demo_bcrypt"
proof -
  have "take 22 (salt @ replicate 22 CHR ''.'') @ pw \<noteq> pw" for salt pw :: string
  proof -
    have "length (take 22 (salt @ replicate 22 CHR ''.'')) = 22"
      by simp
    then have "take 22 (salt @ replicate 22 CHR ''.'') \<noteq> []"
      by (metis list.size(3) zero_neq_numeral)
    then show ?thesis
      using self_append_conv2 [of pw "take 22 (salt @ replicate 22 CHR ''.'')"] by blast
  qed
  then show ?thesis
    by (simp add: hash_differs_from_plaintext_def demo_generate)
qed

lemma demo_hash_s1: "generate_password_hash demo_bcrypt ''s1'' ''pw1'' = Inr ''s1....................pw1''"
  by (simp add: demo_bcrypt_def eval_nat_numeral)

lemma demo_hash_s2: "generate_password_hash demo_bcrypt ''s2'' ''pw2'' = Inr ''s2....................pw2''"
  by (simp add: demo_bcrypt_def eval_nat_numeral)

lemma alice_lookup_initial: "query_user_by_username ''alice'' initial_state = Inr None"
  by (simp add: query_user_None initial_state_def)

lemma alice_insert_initial:
  "insert_user ''alice'' ''s1....................pw1'' initial_state =
     (Inr \<lparr>uid = 1, username = ''alice'', password = ''s1....................pw1''\<rparr>,
      \<lparr>users = [\<lparr>uid = 1, username = ''alice'', password = ''s1....................pw1''\<rparr>],
       reviews = [], users_id_seq = 2, reviews_id_seq = 1, session = None, outbound = []\<rparr>)"
  by (simp add: insert_user_def bind_text_def varchar_def initial_state_def Let_def)

lemma alice_register:
  "register demo_bcrypt ''s1'' id (credentials ''alice'' ''pw1'') initial_state
     = (Redirect ''home'', alice_registered)"
  by (simp add: alice_registered_def)
    (simp add: register_post [OF posts_credentials_credentials] alice_lookup_initial
      demo_hash_s1 alice_insert_initial)

lemma alice_registered_eq:
  "alice_registered =
     \<lparr>users = [\<lparr>uid = 1, username = ''alice'', password = ''s1....................pw1''\<rparr>],
      reviews = [], users_id_seq = 2, reviews_id_seq = 1, session = Some 1, outbound = []\<rparr>"
  by (simp add: alice_registered_def register_post [OF posts_credentials_credentials]
      alice_lookup_initial demo_hash_s1 alice_insert_initial login_user_def)

lemma alice_current:
  "current_user alice_registered =
     Some \<lparr>uid = 1, username = ''alice'', password = ''s1....................pw1''\<rparr>"
  by (simp add: alice_registered_eq current_user_def load_user_def query_get_def)

lemma bob_commits_first_initial:
  "bob_commits_first initial_state =
     \<lparr>users = [\<lparr>uid = 1, username = ''alice'', password = ''s2....................pw2''\<rparr>],
      reviews = [], users_id_seq = 2, reviews_id_seq = 1, session = None, outbound = []\<rparr>"
proof -
  have "initial_state\<lparr>session := None\<rparr> = initial_state"
    by (simp add: initial_state_def)
  moreover have "insert_user ''alice'' ''s2....................pw2'' initial_state =
     (Inr \<lparr>uid = 1, username = ''alice'', password = ''s2....................pw2''\<rparr>,
      \<lparr>users = [\<lparr>uid = 1, username = ''alice'', password = ''s2....................pw2''\<rparr>],
       reviews = [], users_id_seq = 2, reviews_id_seq = 1, session = None, outbound = []\<rparr>)"
    by (simp add: insert_user_def bind_text_def varchar_def initial_state_def Let_def)
  ultimately show ?thesis
    by (simp add: bob_commits_first_def other_client_def
        register_post [OF posts_credentials_credentials] alice_lookup_initial demo_hash_s2
        login_user_def)
      (simp add: initial_state_def)
qed

lemma alice_insert_after_bob:
  "insert_user ''alice'' ''s1....................pw1'' (bob_commits_first initial_state)
     = (Inl IntegrityError, (bob_commits_first initial_state)\<lparr>users_id_seq := 3\<rparr>)"
  by (simp add: bob_commits_first_initial insert_user_def bind_text_def varchar_def Let_def)

lemma dune_reviewed_eq:
  "dune_reviewed = alice_registered
     \<lparr>reviews := [\<lparr>rid = 1, movie_title = ''Dune'', review_text = ''Great'', user_id = 1\<rparr>],
      reviews_id_seq := 2\<rparr>"
proof -
  have "review ''Dune'' (post [(''review_text'', ''Great'')]) alice_registered
      = review_view ''Dune'' (post [(''review_text'', ''Great'')])
          \<lparr>uid = 1, username = ''alice'', password = ''s1....................pw1''\<rparr>
          alice_registered"
    by (simp add: review_def login_required_def alice_current)
  then show ?thesis
    by (simp add: dune_reviewed_def review_view_def post_def form_getitem_def
        insert_review_def bind_text_def varchar_def Let_def alice_registered_eq)
qed

text \<open>The padded username: one character too long, and the excess is a space.\<close>

lemma padded_name_length: "length padded_name = 81"
  by (simp add: padded_name_def)

lemma padded_name_no_nul: "CHR 0x00 \<notin> set padded_name"
  by (simp add: padded_name_def)

lemma padded_name_stored: "varchar 80 padded_name = Inr (replicate 80 CHR ''a'')"
  by (simp add: varchar_def padded_name_def)

lemma padded_name_differs: "replicate 80 CHR ''a'' \<noteq> padded_name"
proof
  assume "replicate 80 CHR ''a'' = padded_name"
  then have "length (replicate 80 CHR ''a'') = length padded_name"
    by simp
  then show False
    by (simp add: padded_name_length)
qed

lemma padded_insert_initial:
  "insert_user padded_name ''s1....................pw1'' initial_state =
     (Inr \<lparr>uid = 1, username = replicate 80 CHR ''a'', password = ''s1....................pw1''\<rparr>,
      \<lparr>users = [\<lparr>uid = 1, username = replicate 80 CHR ''a'',
                 password = ''s1....................pw1''\<rparr>],
       reviews = [], users_id_seq = 2, reviews_id_seq = 1, session = None, outbound = []\<rparr>)"
  by (simp add: insert_user_def bind_text_def padded_name_no_nul padded_name_stored
      varchar_fits initial_state_def Let_def)

lemma padded_lookup_initial: "query_user_by_username padded_name initial_state = Inr None"
  by (simp add: query_user_None padded_name_no_nul initial_state_def)

lemma padded_register:
  "register demo_bcrypt ''s1'' id (credentials padded_name ''pw1'') initial_state
     = (Redirect ''home'', padded_registered)"
  by (simp add: padded_registered_def)
    (simp add: register_post [OF posts_credentials_credentials] padded_lookup_initial
      demo_hash_s1 padded_insert_initial)

lemma padded_registered_eq:
  "padded_registered =
     \<lparr>users = [\<lparr>uid = 1, username = replicate 80 CHR ''a'',
                password = ''s1....................pw1''\<rparr>],
      reviews = [], users_id_seq = 2, reviews_id_seq = 1, session = Some 1, outbound = []\<rparr>"
  by (simp add: padded_registered_def register_post [OF posts_credentials_credentials]
      padded_lookup_initial demo_hash_s1 padded_insert_initial login_user_def)

lemma padded_lookup_registered: "query_user_by_username padded_name padded_registered = Inr None"
  by (simp add: query_user_None padded_name_no_nul padded_registered_eq padded_name_differs)

lemma padded_insert_registered:
  "insert_user padded_name ''s2....................pw2'' padded_registered
     = (Inl IntegrityError, padded_registered\<lparr>users_id_seq := 3\<rparr>)"
  by (simp add: insert_user_def bind_text_def padded_name_no_nul padded_name_stored
      varchar_fits padded_registered_eq Let_def)






subsection \<open>Registration and login\<close>

lemma found_after_insert:
  assumes ins: "insert_user name h s = (Inr nu, s')"
    and later: "prefix (users s') (users st2)"
  shows "query_user_by_username (username nu) st2 = Inr (Some nu)"
    and "current_user (st2\<lparr>session := Some (uid nu)\<rparr>) = Some nu"
proof -
  from later obtain more where rows: "users st2 = (users s @ [nu]) @ more"
    using insert_user_Inr(4) [OF ins] by (auto simp: prefix_def)
  have "CHR 0x00 \<notin> set name"
    using ins by (auto simp: insert_user_def bind_text_def split: if_splits)
  moreover have "username nu = take 80 name"
    using insert_user_Inr(1) [OF ins] by (rule varchar_Inr)
  ultimately have nonul: "CHR 0x00 \<notin> set (username nu)"
    by (auto dest: in_set_takeD)
  have "filter (\<lambda>u. username u = username nu) (users s) = []"
    using insert_user_Inr(5) [OF ins] by (simp add: filter_empty_conv)
  then have "first (filter_by_username (username nu) (users st2)) = Some nu"
    by (simp add: rows first_def filter_by_username_def)
  then show "query_user_by_username (username nu) st2 = Inr (Some nu)"
    using nonul by (simp add: query_user_by_username_def bind_text_def)
  have "find (\<lambda>u. uid u = uid nu) (users s) = None"
    using insert_user_Inr(5) [OF ins] by (simp add: find_None_iff)
  then have "find (\<lambda>u. uid u = uid nu) (users st2) = Some nu"
    by (simp add: rows find_append_None)
  then show "current_user (st2\<lparr>session := Some (uid nu)\<rparr>) = Some nu"
    by (simp add: current_user_def load_user_def query_get_def)
qed

text \<open>
  Claim C1, as the code has it. After a registration of a username succeeded, a further
  registration POST with the same username adds no row to the \<^verbatim>\<open>users\<close> table, in any
  later state (no view removes a row, neither before the request nor in the requests
  that commit during it). When the username has at most 80 characters, so that it was
  stored as submitted, the answer is the redirect to the registration form and the whole
  state is as it was.
\<close>

theorem register_duplicate_username:
  assumes first_req: "posts_credentials req1 name pw1"
    and first_ok: "register bc salt1 conc1 req1 st0 = (Redirect ''home'', st1)"
    and later: "set (users st1) \<subseteq> set (users st)"
    and kept: "set (users st) \<subseteq> set (users (conc2 st))"
    and again: "posts_credentials req2 name pw2"
  shows "(length name \<le> 80 \<longrightarrow>
            register bc salt2 conc2 req2 st = (Redirect ''register'', st))
       \<and> (users (snd (register bc salt2 conc2 req2 st)) = users st
          \<or> users (snd (register bc salt2 conc2 req2 st)) = users (conc2 st))"
proof -
  from register_success [OF first_req first_ok] obtain h nu s' where
    q0: "query_user_by_username name st0 = Inr None" and
    ins: "insert_user name h (conc1 st0) = (Inr nu, s')" and
    st1: "st1 = login_user nu s'"
    by blast
  have nonul: "CHR 0x00 \<notin> set name"
    using q0 by (simp add: query_user_None)
  have stored: "varchar 80 name = Inr (username nu)"
    by (rule insert_user_Inr(1) [OF ins])
  have "nu \<in> set (users st1)"
    using insert_user_Inr(4) [OF ins] st1 by (simp add: login_user_def)
  with later kept have in_st: "nu \<in> set (users st)" and in_conc: "nu \<in> set (users (conc2 st))"
    by auto
  have redirect: "register bc salt2 conc2 req2 st = (Redirect ''register'', st)"
    if "length name \<le> 80"
  proof -
    from that stored have "username nu = name"
      by (simp add: varchar_fits)
    with in_st have "\<exists>u \<in> set (users st). username u = name"
      by blast
    from query_user_found [OF nonul this] obtain u where
      "query_user_by_username name st = Inr (Some u)" by blast
    then show ?thesis
      by (simp add: register_post [OF again])
  qed
  have no_row: "users (snd (register bc salt2 conc2 req2 st)) = users st
      \<or> users (snd (register bc salt2 conc2 req2 st)) = users (conc2 st)"
  proof (cases "query_user_by_username name st")
    case (Inl e)
    then show ?thesis by (simp add: register_post [OF again])
  next
    case (Inr found)
    show ?thesis
    proof (cases found)
      case (Some u)
      with Inr show ?thesis by (simp add: register_post [OF again])
    next
      case None
      show ?thesis
      proof (cases "generate_password_hash bc salt2 pw2")
        case (Inl e)
        with Inr None show ?thesis by (simp add: register_post [OF again])
      next
        case hashed: (Inr h2)
        from in_conc have taken: "\<exists>u \<in> set (users (conc2 st)). username u = username nu"
          by blast
        from insert_user_taken [OF stored taken, of h2] obtain e where
          "users (snd (insert_user name h2 (conc2 st))) = users (conc2 st)" and
          "fst (insert_user name h2 (conc2 st)) = Inl e"
          by blast
        then have "users (snd (register bc salt2 conc2 req2 st)) = users (conc2 st)"
          using Inr None hashed
          by (cases "insert_user name h2 (conc2 st)") (simp add: register_post [OF again])
        then show ?thesis ..
      qed
    qed
  qed
  from redirect no_row show ?thesis by blast
qed

theorem register_duplicate_username_witness:
  "length ''alice'' \<le> 80
   \<and> register demo_bcrypt ''s1'' id (credentials ''alice'' ''pw1'') initial_state
       = (Redirect ''home'', alice_registered)
   \<and> users dune_reviewed = users alice_registered
   \<and> register demo_bcrypt ''s2'' id (credentials ''alice'' ''pw2'') dune_reviewed
       = (Redirect ''register'', dune_reviewed)"
proof -
  note c = posts_credentials_credentials
  have same: "users dune_reviewed = users alice_registered"
    by (simp add: dune_reviewed_eq)
  then have sub: "set (users alice_registered) \<subseteq> set (users dune_reviewed)"
    and sub': "set (users dune_reviewed) \<subseteq> set (users (id dune_reviewed))"
    by simp_all
  from register_duplicate_username [where st = dune_reviewed and ?conc2.0 = id
      and ?pw2.0 = "''pw2''" and ?salt2.0 = "''s2''", OF c alice_register sub sub' c]
  show ?thesis
    using alice_register same by simp
qed

text \<open>
  The claim as the spec states it fails for a username that the database cuts: the
  81-character name registers (it is stored without its trailing space), and a second
  registration with the same 81 characters passes the lookup, violates the unique
  constraint at the insert and ends in the integrity error, not in the redirect.
\<close>

theorem register_padded_twice_counterexample:
  "register demo_bcrypt ''s1'' id (credentials padded_name ''pw1'') initial_state
     = (Redirect ''home'', padded_registered)
   \<and> register demo_bcrypt ''s2'' id (credentials padded_name ''pw2'') padded_registered
     = (Raised IntegrityError, padded_registered\<lparr>users_id_seq := 3\<rparr>)"
proof -
  have "register demo_bcrypt ''s2'' id (credentials padded_name ''pw2'') padded_registered
     = (Raised IntegrityError, padded_registered\<lparr>users_id_seq := 3\<rparr>)"
    by (simp add: register_post [OF posts_credentials_credentials]
        padded_lookup_registered demo_hash_s2 padded_insert_registered)
  with padded_register show ?thesis
    by (rule conjI)
qed

text \<open>
  Claim C2, as the code has it. After a registration of (username, password) that
  succeeded, with a username of at most 80 characters and a hash that fits the password
  column, in every later state (the \<^verbatim>\<open>users\<close> table has only grown) the new row is the one
  a login with that username finds. A login POST with the same password answers with the
  redirect home and puts the id of the registered user in the session, given that the
  library verifies the password it hashed. A login POST with any password answers as the
  library's check of it against the stored hash decides: the redirect to the login form
  with the state, the session included, as it was when the check says no, the redirect
  home when it says yes, and the library's exception when the check raises.
\<close>

theorem register_then_login:
  assumes lib: "verifies_own_password bc"
    and req: "posts_credentials req name pw"
    and reg: "register bc salt concurrent req st = (Redirect ''home'', st1)"
    and short: "length name \<le> 80"
    and hash: "generate_password_hash bc salt pw = Inr h" "length h \<le> 200"
  shows "\<exists>u. current_user st1 = Some u \<and> username u = name \<and> password u = h
           \<and> (\<forall>st2 req'. prefix (users st1) (users st2) \<longrightarrow>
                 posts_credentials req' name pw \<longrightarrow>
                 login bc req' st2 = (Redirect ''home'', st2\<lparr>session := Some (uid u)\<rparr>)
                   \<and> current_user (st2\<lparr>session := Some (uid u)\<rparr>) = Some u)
           \<and> (\<forall>st2 req' pw'. prefix (users st1) (users st2) \<longrightarrow>
                 posts_credentials req' name pw' \<longrightarrow>
                 login bc req' st2
                   = (case check_password_hash bc h pw' of
                        Inl e \<Rightarrow> (Raised e, st2)
                      | Inr ok \<Rightarrow>
                          if ok then (Redirect ''home'', st2\<lparr>session := Some (uid u)\<rparr>)
                          else (Redirect ''login'', st2)))"
proof -
  from register_success [OF req reg] hash(1) obtain nu s' where
    ins: "insert_user name h (concurrent st) = (Inr nu, s')" and
    st1: "st1 = login_user nu s'"
    by auto
  have rows: "users st1 = users s'"
    by (simp add: st1 login_user_def)
  have name_nu: "username nu = name"
    using insert_user_Inr(1) [OF ins] short by (simp add: varchar_fits)
  have pw_nu: "password nu = h"
    using insert_user_Inr(2) [OF ins] hash(2) by (simp add: varchar_fits)
  have loaded: "current_user st1 = Some nu"
    using current_user_after_insert [OF ins] st1 by simp
  have ok: "check_password_hash bc h pw = Inr True"
    using lib hash(1) by (simp add: verifies_own_password_def)
  have any_login: "login bc req' st2
      = (case check_password_hash bc h pw' of
           Inl e \<Rightarrow> (Raised e, st2)
         | Inr ok \<Rightarrow>
             if ok then (Redirect ''home'', st2\<lparr>session := Some (uid nu)\<rparr>)
             else (Redirect ''login'', st2))"
    if later: "prefix (users st1) (users st2)" and cred: "posts_credentials req' name pw'"
    for st2 req' pw'
  proof -
    have "query_user_by_username name st2 = Inr (Some nu)"
      using found_after_insert(1) [OF ins] later rows name_nu by simp
    then show ?thesis
      by (simp add: login_post [OF cred] pw_nu login_user_def split: sum.splits)
  qed
  have good_login: "login bc req' st2 = (Redirect ''home'', st2\<lparr>session := Some (uid nu)\<rparr>)
      \<and> current_user (st2\<lparr>session := Some (uid nu)\<rparr>) = Some nu"
    if later: "prefix (users st1) (users st2)" and cred: "posts_credentials req' name pw"
    for st2 req'
    using any_login [OF that] ok found_after_insert(2) [OF ins] later rows by simp
  show ?thesis
    using loaded name_nu pw_nu good_login any_login by blast
qed

theorem register_then_login_witness:
  "register demo_bcrypt ''s1'' id (credentials ''alice'' ''pw1'') initial_state
       = (Redirect ''home'', alice_registered)
   \<and> login demo_bcrypt (credentials ''alice'' ''pw1'') (alice_registered\<lparr>session := None\<rparr>)
       = (Redirect ''home'', alice_registered)
   \<and> login demo_bcrypt (credentials ''alice'' ''pw2'') (alice_registered\<lparr>session := None\<rparr>)
       = (Redirect ''login'', alice_registered\<lparr>session := None\<rparr>)
   \<and> login demo_bcrypt (credentials ''alice'' (replicate 73 CHR ''x''))
         (alice_registered\<lparr>session := None\<rparr>)
       = (Raised ValueError, alice_registered\<lparr>session := None\<rparr>)"
proof -
  note c = posts_credentials_credentials
  let ?out = "alice_registered\<lparr>session := None\<rparr>"
  have short: "length ''alice'' \<le> 80" and fits: "length ''s1....................pw1'' \<le> 200"
    by simp_all
  have later: "prefix (users alice_registered) (users ?out)"
    by simp
  from register_then_login [OF demo_verifies c alice_register short demo_hash_s1 fits]
  obtain u where
    u: "current_user alice_registered = Some u" and
    good: "\<And>st2 req'. prefix (users alice_registered) (users st2) \<Longrightarrow>
             posts_credentials req' ''alice'' ''pw1'' \<Longrightarrow>
             login demo_bcrypt req' st2 = (Redirect ''home'', st2\<lparr>session := Some (uid u)\<rparr>)" and
    any: "\<And>st2 req' pw'. prefix (users alice_registered) (users st2) \<Longrightarrow>
             posts_credentials req' ''alice'' pw' \<Longrightarrow>
             login demo_bcrypt req' st2
               = (case check_password_hash demo_bcrypt ''s1....................pw1'' pw' of
                    Inl e \<Rightarrow> (Raised e, st2)
                  | Inr ok \<Rightarrow>
                      if ok then (Redirect ''home'', st2\<lparr>session := Some (uid u)\<rparr>)
                      else (Redirect ''login'', st2))"
    by blast
  from u have "uid u = 1"
    by (auto simp: alice_current)
  then have same: "?out\<lparr>session := Some (uid u)\<rparr> = alice_registered"
    by (simp add: alice_registered_eq)
  from good [OF later c] any [OF later c, of "''pw2''"]
    any [OF later c, of "replicate 73 CHR ''x''"] same
  show ?thesis
    using alice_register by (simp add: demo_check)
qed

text \<open>
  The claim as the spec states it fails for a username that the database cuts: the
  81-character name registers with \<^verbatim>\<open>pw1\<close>, and a login with the same 81 characters and
  \<^verbatim>\<open>pw1\<close> finds no row and is answered with the redirect to the login form.
\<close>

theorem login_padded_counterexample:
  "register demo_bcrypt ''s1'' id (credentials padded_name ''pw1'') initial_state
     = (Redirect ''home'', padded_registered)
   \<and> login demo_bcrypt (credentials padded_name ''pw1'') padded_registered
     = (Redirect ''login'', padded_registered)"
proof -
  have "login demo_bcrypt (credentials padded_name ''pw1'') padded_registered
     = (Redirect ''login'', padded_registered)"
    by (simp add: login_post [OF posts_credentials_credentials] padded_lookup_registered)
  with padded_register show ?thesis
    by (rule conjI)
qed

text \<open>
  Claim C3. After a registration that succeeded, the new row of the \<^verbatim>\<open>users\<close> table (the
  row of the user the registration logged in) holds in its \<^verbatim>\<open>password\<close> column what the
  library's hash function returned for the submitted password; it is not the plaintext,
  and the library's check of the plaintext against the stored value succeeds. The two
  properties of the library itself (its hash differs from its input, its check accepts
  the password that was hashed) are taken from the spec; the hash fits the 200-character
  column, as the 60 characters of a bcrypt hash do.
\<close>

theorem stored_hash_roundtrip:
  assumes lib: "verifies_own_password bc" "hash_differs_from_plaintext bc"
    and req: "posts_credentials req name pw"
    and reg: "register bc salt concurrent req st = (Redirect ''home'', st1)"
    and hash: "generate_password_hash bc salt pw = Inr h" "length h \<le> 200"
  shows "\<exists>u. current_user st1 = Some u
           \<and> users st1 = users (concurrent st) @ [u]
           \<and> password u = h
           \<and> password u \<noteq> pw
           \<and> check_password_hash bc (password u) pw = Inr True"
proof -
  from register_success [OF req reg] hash(1) obtain nu s' where
    ins: "insert_user name h (concurrent st) = (Inr nu, s')" and
    st1: "st1 = login_user nu s'"
    by auto
  have loaded: "current_user st1 = Some nu"
    using current_user_after_insert [OF ins] st1 by simp
  have rows: "users st1 = users (concurrent st) @ [nu]"
    using insert_user_Inr(4) [OF ins] st1 by (simp add: login_user_def)
  have pw_nu: "password nu = h"
    using insert_user_Inr(2) [OF ins] hash(2) by (simp add: varchar_fits)
  have "h \<noteq> pw"
    using lib(2) hash(1) unfolding hash_differs_from_plaintext_def by blast
  moreover have "check_password_hash bc h pw = Inr True"
    using lib(1) hash(1) by (simp add: verifies_own_password_def)
  ultimately show ?thesis
    using loaded rows pw_nu by simp
qed

theorem stored_hash_roundtrip_witness:
  "register demo_bcrypt ''s1'' id (credentials ''alice'' ''pw1'') initial_state
       = (Redirect ''home'', alice_registered)
   \<and> map password (users alice_registered) = [''s1....................pw1'']
   \<and> check_password_hash demo_bcrypt ''s1....................pw1'' ''pw1'' = Inr True"
proof -
  note c = posts_credentials_credentials
  have fits: "length ''s1....................pw1'' \<le> 200"
    by simp
  from stored_hash_roundtrip [OF demo_verifies demo_differs c alice_register demo_hash_s1 fits]
  obtain u :: user where
    p: "password u = ''s1....................pw1''" and
    ok: "check_password_hash demo_bcrypt (password u) ''pw1'' = Inr True"
    by blast
  from p ok show ?thesis
    using alice_register by (simp add: alice_registered_eq)
qed

text \<open>
  Claim C7, as the code has it. Nothing in \<^verbatim>\<open>register\<close> catches an exception of the
  commit. A registration POST is answered with the redirect to the registration form
  exactly when the lookup before the insert finds a row. When the lookup finds none and
  the insert then raises (the uniqueness violation of a concurrent registration
  included), the request ends in that exception; it adds no row and does not touch the
  session.
\<close>

theorem register_insert_error_propagates:
  assumes "posts_credentials req name pw"
  shows "(fst (register bc salt concurrent req st) = Redirect ''register''
            \<longleftrightarrow> (\<exists>u. query_user_by_username name st = Inr (Some u)))
       \<and> (\<forall>h e st'. query_user_by_username name st = Inr None \<longrightarrow>
              generate_password_hash bc salt pw = Inr h \<longrightarrow>
              insert_user name h (concurrent st) = (Inl e, st') \<longrightarrow>
              register bc salt concurrent req st = (Raised e, st')
                \<and> users st' = users (concurrent st)
                \<and> session st' = session (concurrent st))"
proof -
  have "fst (register bc salt concurrent req st) = Redirect ''register''
      \<longleftrightarrow> (\<exists>u. query_user_by_username name st = Inr (Some u))"
    by (simp add: register_post [OF assms] split: sum.splits option.splits prod.splits)
  moreover have "register bc salt concurrent req st = (Raised e, st')
      \<and> users st' = users (concurrent st) \<and> session st' = session (concurrent st)"
    if "query_user_by_username name st = Inr None"
      and "generate_password_hash bc salt pw = Inr h"
      and "insert_user name h (concurrent st) = (Inl e, st')" for h e st'
    using that insert_user_Inl(1,2) [OF that(3)]
    by (simp add: register_post [OF assms])
  ultimately show ?thesis by blast
qed

theorem register_insert_error_propagates_witness:
  "query_user_by_username ''alice'' initial_state = Inr None
   \<and> insert_user ''alice'' ''s1....................pw1'' (bob_commits_first initial_state)
       = (Inl IntegrityError, (bob_commits_first initial_state)\<lparr>users_id_seq := 3\<rparr>)
   \<and> register demo_bcrypt ''s1'' bob_commits_first (credentials ''alice'' ''pw1'') initial_state
       = (Raised IntegrityError, (bob_commits_first initial_state)\<lparr>users_id_seq := 3\<rparr>)"
proof -
  from register_insert_error_propagates [OF posts_credentials_credentials,
      of demo_bcrypt "''s1''" bob_commits_first "''alice''" "''pw1''" initial_state]
  have "register demo_bcrypt ''s1'' bob_commits_first (credentials ''alice'' ''pw1'')
          initial_state
      = (Raised IntegrityError, (bob_commits_first initial_state)\<lparr>users_id_seq := 3\<rparr>)"
    using alice_lookup_initial demo_hash_s1 alice_insert_after_bob by blast
  with alice_lookup_initial alice_insert_after_bob show ?thesis
    by blast
qed

text \<open>
  The claim as the spec states it fails: \<^verbatim>\<open>alice\<close> is free when the lookup runs, another
  client commits \<^verbatim>\<open>alice\<close> before the insert, and the request ends in the integrity error
  of the insert, not in the redirect to the registration form.
\<close>

theorem register_race_counterexample:
  "fst (register demo_bcrypt ''s1'' bob_commits_first (credentials ''alice'' ''pw1'')
          initial_state) = Raised IntegrityError
   \<and> fst (register demo_bcrypt ''s1'' bob_commits_first (credentials ''alice'' ''pw1'')
          initial_state) \<noteq> Redirect ''register''"
  by (simp add: register_post [OF posts_credentials_credentials] alice_lookup_initial
      demo_hash_s1 alice_insert_after_bob)

subsection \<open>Reviews\<close>





text \<open>
  Claim C5. Without an authenticated user (no id in the session, or an id no row has),
  a request to the review route, whatever its method and form, is answered by
  \<^verbatim>\<open>login_required\<close> with the redirect to the login view; the wrapped view does not run and
  the state, the \<^verbatim>\<open>reviews\<close> table included, is as it was.
\<close>

theorem review_requires_login:
  "current_user st = None \<Longrightarrow> review title req st = (Redirect ''login'', st)"
  by (simp add: review_def login_required_def)

theorem review_requires_login_witness:
  "current_user initial_state = None
   \<and> review ''Dune'' (post [(''review_text'', ''Great'')]) initial_state
       = (Redirect ''login'', initial_state)"
proof -
  have a: "current_user initial_state = None"
    by (simp add: current_user_def initial_state_def)
  show ?thesis
    using a review_requires_login [OF a, of "''Dune''" "post [(''review_text'', ''Great'')]"]
    by simp
qed

text \<open>
  Claim C9. For an authenticated POST to the review route whose form has no
  \<^verbatim>\<open>review_text\<close> field, the view reads the field without checking for it: the request
  ends in the key error of that read, and the state, the \<^verbatim>\<open>reviews\<close> table included, is as
  it was.
\<close>

theorem review_missing_text:
  assumes "current_user st = Some u" "request_method req = POST" "form req ''review_text'' = None"
  shows "review title req st = (Raised (BadRequestKeyError ''review_text''), st)"
  using assms by (simp add: review_def login_required_def review_view_def form_getitem_def)

theorem review_missing_text_witness:
  "current_user alice_registered \<noteq> None \<and> request_method (post []) = POST
   \<and> form (post []) ''review_text'' = None
   \<and> review ''Dune'' (post []) alice_registered
       = (Raised (BadRequestKeyError ''review_text''), alice_registered)"
proof -
  have b: "request_method (post []) = POST" and c: "form (post []) ''review_text'' = None"
    by (simp_all add: post_def)
  show ?thesis
    using b c review_missing_text [OF alice_current b c, of "''Dune''"]
    by (simp add: alice_current)
qed

subsection \<open>Search\<close>

text \<open>
  Claim C6. For a search POST that the provider answers: when the status is not 200
  (404 included) the view renders \<^verbatim>\<open>search.html\<close> with \<^verbatim>\<open>movie=None\<close> and raises nothing;
  when the status is 200 and the body parses, the view renders the parsed body itself.
\<close>

theorem search_status_code:
  assumes "request_method req = POST"
    and "requests_get (search_url cfg (form req ''title'')) = Inr resp"
  shows "(status_code resp \<noteq> 200 \<longrightarrow>
            fst (search cfg requests_get req st) = Rendered ''search.html'' [(''movie'', PyNone)])
       \<and> (\<forall>movie. status_code resp = 200 \<longrightarrow> json resp = Inr movie \<longrightarrow>
            fst (search cfg requests_get req st)
              = Rendered ''search.html'' [(''movie'', Movie movie)])"
  using assms by (simp add: search_def form_get_def Let_def)

theorem search_status_code_witness:
  "request_method (post [(''title'', ''NoSuchMovieXYZ'')]) = POST
   \<and> fst (search (load_config Map.empty) (provider 404 (Inl JSONDecodeError))
            (post [(''title'', ''NoSuchMovieXYZ'')]) initial_state)
       = Rendered ''search.html'' [(''movie'', PyNone)]
   \<and> fst (search (load_config Map.empty) (provider 200 (Inr (JObj [(''Title'', JStr ''Dune'')])))
            (post [(''title'', ''Dune'')]) initial_state)
       = Rendered ''search.html'' [(''movie'', Movie (JObj [(''Title'', JStr ''Dune'')]))]"
proof -
  have m: "request_method (post kvs) = POST" for kvs
    by (simp add: post_def)
  have a: "provider c b url = Inr \<lparr>status_code = c, json = b\<rparr>" for c b url
    by (simp add: provider_def)
  from search_status_code [where req = "post [(''title'', ''NoSuchMovieXYZ'')]"
      and requests_get = "provider 404 (Inl JSONDecodeError)"
      and cfg = "load_config Map.empty" and st = initial_state, OF m a]
  have one: "fst (search (load_config Map.empty) (provider 404 (Inl JSONDecodeError))
            (post [(''title'', ''NoSuchMovieXYZ'')]) initial_state)
       = Rendered ''search.html'' [(''movie'', PyNone)]"
    by simp
  from search_status_code [where req = "post [(''title'', ''Dune'')]"
      and requests_get = "provider 200 (Inr (JObj [(''Title'', JStr ''Dune'')]))"
      and cfg = "load_config Map.empty" and st = initial_state, OF m a]
  have two: "fst (search (load_config Map.empty)
            (provider 200 (Inr (JObj [(''Title'', JStr ''Dune'')])))
            (post [(''title'', ''Dune'')]) initial_state)
       = Rendered ''search.html'' [(''movie'', Movie (JObj [(''Title'', JStr ''Dune'')]))]"
    by simp
  show ?thesis
    using m one two by simp
qed

text \<open>
  Claim C10. A search POST whose form has no \<^verbatim>\<open>title\<close> field does not fail on the missing
  field: it does exactly what a search for the title \<^verbatim>\<open>None\<close> does, and the URL it hands to
  \<^verbatim>\<open>requests.get\<close> ends in \<^verbatim>\<open>&t=None\<close>.
\<close>

theorem search_missing_title:
  assumes "request_method req = POST" "form req ''title'' = None"
  shows "search cfg requests_get req st
           = search cfg requests_get (req\<lparr>form := (form req)(''title'' \<mapsto> ''None'')\<rparr>) st
       \<and> outbound (snd (search cfg requests_get req st))
           = outbound st @ [''http://www.omdbapi.com/?apikey='' @ OMDB_API_KEY cfg @ ''&t=None'']"
  using assms
  by (simp add: search_def form_get_def search_url_def format_str_def Let_def
      split: sum.splits)

theorem search_missing_title_witness:
  "request_method (post []) = POST \<and> form (post []) ''title'' = None
   \<and> outbound (snd (search (load_config Map.empty) (provider 200 (Inr JNull)) (post [])
                      initial_state))
       = [''http://www.omdbapi.com/?apikey=fallback-api-key&t=None'']"
proof -
  have a: "request_method (post []) = POST" and b: "form (post []) ''title'' = None"
    by (simp_all add: post_def)
  have k: "OMDB_API_KEY (load_config Map.empty) = ''fallback-api-key''"
    by (simp add: load_config_def getenv_def)
  have o: "outbound initial_state = []"
    by (simp add: initial_state_def)
  from conjunct2 [OF search_missing_title [OF a b, of "load_config Map.empty"
        "provider 200 (Inr JNull)" initial_state]]
  have "outbound (snd (search (load_config Map.empty) (provider 200 (Inr JNull)) (post [])
                      initial_state))
       = [''http://www.omdbapi.com/?apikey=fallback-api-key&t=None'']"
    by (simp add: k o)
  then show ?thesis
    using a b by simp
qed

subsection \<open>Configuration\<close>

text \<open>
  Claim C8, as the code has it. The key sent to the metadata provider is the value of the
  environment variable \<^verbatim>\<open>OMDB_API_KEY\<close> when the module is loaded, and the literal
  \<^verbatim>\<open>fallback-api-key\<close> when that variable is unset; the variable \<^verbatim>\<open>SECRET_KEY\<close> has no part in
  it. The search URL is built from the loaded configuration.
\<close>

theorem api_key_from_environment:
  "OMDB_API_KEY (load_config environ)
     = (case environ ''OMDB_API_KEY'' of None \<Rightarrow> ''fallback-api-key'' | Some v \<Rightarrow> v)
   \<and> OMDB_API_KEY (load_config (environ(''SECRET_KEY'' := x))) = OMDB_API_KEY (load_config environ)
   \<and> search_url (load_config environ) title
       = ''http://www.omdbapi.com/?apikey=''
           @ (case environ ''OMDB_API_KEY'' of None \<Rightarrow> ''fallback-api-key'' | Some v \<Rightarrow> v)
           @ ''&t='' @ format_str title"
  by (simp add: load_config_def getenv_def search_url_def)

theorem api_key_from_environment_witness:
  "OMDB_API_KEY (load_config (map_of [(''OMDB_API_KEY'', ''k1''), (''SECRET_KEY'', ''s3cret'')]))
     = ''k1''
   \<and> search_url (load_config (map_of [(''SECRET_KEY'', ''s3cret'')])) (Some ''Dune'')
     = ''http://www.omdbapi.com/?apikey=fallback-api-key&t=Dune''"
  using api_key_from_environment
      [of "map_of [(''OMDB_API_KEY'', ''k1''), (''SECRET_KEY'', ''s3cret'')]" None None]
    api_key_from_environment [of "map_of [(''SECRET_KEY'', ''s3cret'')]" None "Some ''Dune''"]
  by (simp add: format_str_def)

text \<open>
  The claim as the spec states it fails: with \<^verbatim>\<open>SECRET_KEY\<close> set and \<^verbatim>\<open>OMDB_API_KEY\<close> unset,
  the key is the fallback literal and not the value of \<^verbatim>\<open>SECRET_KEY\<close>.
\<close>

theorem api_key_secret_key_counterexample:
  "OMDB_API_KEY (load_config (map_of [(''SECRET_KEY'', ''s3cret'')])) = ''fallback-api-key''
   \<and> OMDB_API_KEY (load_config (map_of [(''SECRET_KEY'', ''s3cret'')])) \<noteq> ''s3cret''"
  by (simp add: load_config_def getenv_def)

end
